theory Spec2Isabelle
  imports Complex_Main
begin

section \<open>CivicFeed: the Post resource\<close>

text \<open>
  A shallow embedding of the Post model (the Mongoose schema \<open>PostSchema\<close>) and of the
  route handlers of \<open>server/routes/posts.js\<close>. The collection is a list of documents in
  insertion order; every handler is a function from the collection and the request to the
  new collection and the HTTP response. Requests are handled one at a time.

  What the handlers call but do not define is kept apart from them:
  \<^item> the \<open>auth\<close> middleware: a handler that requires it receives the authenticated
    \<open>user\<close> (\<open>req.user\<close>) as an argument, whose \<open>userId\<close> is the hexadecimal string of
    the user's ObjectId;
  \<^item> \<open>parseFloat\<close>, \<open>Number\<close> and the storage engine's geodesic distance: fields of a
    \<open>runtime\<close> record that the handlers take as a parameter (a number is a real, the
    value NaN is \<open>None\<close>);
  \<^item> the clock \<open>Date.now()\<close> and the ObjectId generated for a new document: arguments;
  \<^item> \<open>populate\<close> (the join with the User collection): left out, a response carries the
    document with the references as they are stored.
\<close>

subsection \<open>Strings\<close>

definition upperChars :: string where
  "upperChars = ''ABCDEFGHIJKLMNOPQRSTUVWXYZ''"

definition lowerChars :: string where
  "lowerChars = ''abcdefghijklmnopqrstuvwxyz''"

text \<open>\<open>String.prototype.toLowerCase\<close>, on ASCII text.\<close>

definition toLowerChar :: "char \<Rightarrow> char" where
  "toLowerChar c = (case map_of (zip upperChars lowerChars) c of Some l \<Rightarrow> l | None \<Rightarrow> c)"

definition toLowerCase :: "string \<Rightarrow> string" where
  "toLowerCase s = map toLowerChar s"

definition startsWith :: "string \<Rightarrow> string \<Rightarrow> bool" where
  "startsWith s w = (take (length w) s = w)"

text \<open>\<open>s.includes(w)\<close>: the word occurs somewhere in the string.\<close>

fun includesStr :: "string \<Rightarrow> string \<Rightarrow> bool" where
  "includesStr [] w = (w = [])"
| "includesStr (c # cs) w = (startsWith (c # cs) w \<or> includesStr cs w)"

text \<open>\<open>s.split(',')\<close>.\<close>

fun splitComma :: "string \<Rightarrow> string list" where
  "splitComma [] = [[]]"
| "splitComma (c # cs) =
     (if c = CHR '','' then [] # splitComma cs
      else (case splitComma cs of [] \<Rightarrow> [[c]] | x # xs \<Rightarrow> (c # x) # xs))"

definition whitespace :: "char \<Rightarrow> bool" where
  "whitespace c = (c \<in> set [CHR '' '', CHR 0x09, CHR 0x0A, CHR 0x0B, CHR 0x0C, CHR 0x0D])"

text \<open>\<open>String.prototype.trim\<close>, on ASCII text.\<close>

definition trim :: "string \<Rightarrow> string" where
  "trim s = rev (dropWhile whitespace (rev (dropWhile whitespace s)))"

text \<open>The decimal digits of a number, as \<open>Date.now() + ext\<close> prints it.\<close>

fun digitsOf :: "nat \<Rightarrow> string" where
  "digitsOf n =
     (if n < 10 then [''0123456789'' ! n]
      else digitsOf (n div 10) @ [''0123456789'' ! (n mod 10)])"

declare digitsOf.simps [simp del]

text \<open>
  \<open>path.extname\<close> on a file name without directory part (the multipart parser hands
  the base name over): from the last dot to the end; empty when there is no dot, when the
  only dot is the first character, and for the name \<open>..\<close>.
\<close>

definition extname :: "string \<Rightarrow> string" where
  "extname s =
     (if CHR ''.'' \<notin> set s then []
      else
        let ext = rev (takeWhile (\<lambda>c. c \<noteq> CHR ''.'') (rev s));
            before = take (length s - length ext - 1) s
        in if before = [] \<or> s = ''..'' then [] else CHR ''.'' # ext)"

subsection \<open>ObjectIds\<close>

text \<open>
  An ObjectId is kept as its 24 hexadecimal digits in lower case, which is what
  \<open>toString()\<close> returns. The cast of a request string to an ObjectId is the storage
  library's: a string of 24 hexadecimal digits is accepted, a string such as \<open>abc\<close> makes
  \<open>findById\<close> throw a cast error.
\<close>

type_synonym oid = string

definition isHexDigit :: "char \<Rightarrow> bool" where
  "isHexDigit c = (c \<in> set ''0123456789abcdefABCDEF'')"

definition castObjectId :: "string \<Rightarrow> oid option" where
  "castObjectId s =
     (if length s = 24 \<and> list_all isHexDigit s then Some (toLowerCase s) else None)"

subsection \<open>The Post schema\<close>

record comment =
  c_user :: oid
  c_text :: string
  c_createdAt :: nat

record post =
  pid :: oid
  title :: string
  description :: string
  category :: string
  locationType :: string
  coordinates :: "real list"
  address :: "string option"
  imageUrl :: "string option"
  videoUrl :: "string option"
  status :: string
  author :: oid
  assignedTo :: "oid option"
  upvotes :: "oid list"
  likes :: "oid list"
  shares :: nat
  comments :: "comment list"
  createdAt :: nat
  updatedAt :: nat

definition categoryEnum :: "string list" where
  "categoryEnum = [''roads'', ''lighting'', ''sanitation'', ''water'', ''parks'', ''safety'', ''other'']"

definition statusEnum :: "string list" where
  "statusEnum = [''reported'', ''in progress'', ''resolved'']"

type_synonym state = "post list"

datatype error = CastError | ValidationError | StoreError | FileTypeError | FileSizeError

record user =
  userId :: oid
  role :: string

text \<open>A value of a JSON request body: a field is absent (\<open>None\<close>), \<open>null\<close> or a string.\<close>

datatype jsval = JNull | JStr string

text \<open>The truthiness test of \<open>if (v)\<close>.\<close>

definition truthy :: "jsval option \<Rightarrow> bool" where
  "truthy v = (case v of None \<Rightarrow> False | Some JNull \<Rightarrow> False | Some (JStr s) \<Rightarrow> s \<noteq> [])"

definition truthyStr :: "string option \<Rightarrow> bool" where
  "truthyStr v = (case v of None \<Rightarrow> False | Some s \<Rightarrow> s \<noteq> [])"

subsection \<open>Responses\<close>

datatype payload =
    Posts "post list"
  | OnePost post
  | Comments "comment list"
  | LikeResult nat bool
  | UpvoteResult nat bool
  | Message string

datatype response = Response nat payload

fun code :: "response \<Rightarrow> nat" where
  "code (Response c b) = c"

fun body :: "response \<Rightarrow> payload" where
  "body (Response c b) = b"

text \<open>The \<open>catch\<close> block of every handler (the error's own message is left out).\<close>

definition serverError :: response where
  "serverError = Response 500 (Message ''Server error'')"

definition notFound :: response where
  "notFound = Response 404 (Message ''Post not found'')"

text \<open>The application's error-handling middleware, which an error of a middleware reaches.\<close>

definition errorMiddleware :: response where
  "errorMiddleware = Response 500 (Message ''Something went wrong!'')"

subsection \<open>The collection\<close>

definition findById :: "state \<Rightarrow> string \<Rightarrow> error + post option" where
  "findById st s =
     (case castObjectId s of
        None \<Rightarrow> Inl CastError
      | Some i \<Rightarrow> Inr (find (\<lambda>p. pid p = i) st))"

text \<open>Writing a loaded document back: the document of the same id is replaced.\<close>

definition save :: "post \<Rightarrow> state \<Rightarrow> state" where
  "save p st = map (\<lambda>q. if pid q = pid p then p else q) st"

text \<open>
  Inserting a new document. The \<open>2dsphere\<close> index on \<open>location\<close> takes a point whose
  longitude is within \<open>[-180, 180]\<close> and whose latitude is within \<open>[-90, 90]\<close>, and
  \<open>_id\<close> is unique.
\<close>

definition geoPointOk :: "real list \<Rightarrow> bool" where
  "geoPointOk cs =
     (case cs of
        [lng, lat] \<Rightarrow> - 180 \<le> lng \<and> lng \<le> 180 \<and> - 90 \<le> lat \<and> lat \<le> 90
      | _ \<Rightarrow> False)"

definition insert_post :: "post \<Rightarrow> state \<Rightarrow> error + state" where
  "insert_post p st =
     (if \<not> geoPointOk (coordinates p) then Inl StoreError
      else if pid p \<in> set (map pid st) then Inl StoreError
      else Inr (st @ [p]))"


subsection \<open>The runtime\<close>

record runtime =
  parseFloat :: "string \<Rightarrow> real option"
  toNumber :: "string \<Rightarrow> real option"
  geoDistance :: "real list \<Rightarrow> real list \<Rightarrow> real"

subsection \<open>The upload middleware\<close>

record upload =
  originalname :: string
  mimetype :: string
  fsize :: nat

definition filetypes :: "string list" where
  "filetypes = [''jpeg'', ''jpg'', ''png'', ''gif'', ''mp4'', ''mov'', ''avi'']"

text \<open>\<open>/jpeg|jpg|png|gif|mp4|mov|avi/.test(s)\<close>: one of the words occurs in \<open>s\<close>.\<close>

definition filetypesTest :: "string \<Rightarrow> bool" where
  "filetypesTest s = list_ex (includesStr s) filetypes"

definition fileFilter :: "upload \<Rightarrow> bool" where
  "fileFilter f =
     (let extOk = filetypesTest (toLowerCase (extname (originalname f)));
          mimeOk = filetypesTest (mimetype f)
      in mimeOk \<and> extOk)"

definition fileSizeLimit :: nat where
  "fileSizeLimit = 10 * 1024 * 1024"

record storedFile =
  filename :: string
  storedMimetype :: string

text \<open>
  \<open>upload.single('media')\<close> on the optional file part of the request, at clock reading
  \<open>t\<close>: the filter, then the size limit, then the name under which the file is stored.
\<close>

definition uploadSingle :: "upload option \<Rightarrow> nat \<Rightarrow> error + storedFile option" where
  "uploadSingle f t =
     (case f of
        None \<Rightarrow> Inr None
      | Some u \<Rightarrow>
          if \<not> fileFilter u then Inl FileTypeError
          else if fsize u > fileSizeLimit then Inl FileSizeError
          else Inr (Some \<lparr>filename = digitsOf t @ extname (originalname u),
                           storedMimetype = mimetype u\<rparr>))"

subsection \<open>Create\<close>

text \<open>\<open>parseFloat\<close> of a body field; \<open>parseFloat(undefined)\<close> is NaN.\<close>

definition parseField :: "runtime \<Rightarrow> string option \<Rightarrow> real option" where
  "parseField rt v = (case v of None \<Rightarrow> None | Some s \<Rightarrow> parseFloat rt s)"

definition mediaUrl :: "storedFile option \<Rightarrow> string option" where
  "mediaUrl file = (case file of None \<Rightarrow> None | Some f \<Rightarrow> Some (''/uploads/'' @ filename f))"

definition mediaOfKind :: "string \<Rightarrow> storedFile option \<Rightarrow> string option" where
  "mediaOfKind kind file =
     (case file of
        None \<Rightarrow> None
      | Some f \<Rightarrow> if startsWith (storedMimetype f) kind then mediaUrl file else None)"

text \<open>
  \<open>new Post({...})\<close> followed by the validation that \<open>save\<close> runs: \<open>title\<close>
  (trimmed), \<open>description\<close> and \<open>category\<close> are required, \<open>category\<close> is one of the
  enumeration, and both coordinates are numbers (NaN does not cast to Number). The
  constructor is given no \<open>status\<close>, so the schema's default applies; the arrays start
  empty and \<open>shares\<close> at its default 0.
\<close>

definition newPost ::
  "runtime \<Rightarrow> user \<Rightarrow> (string \<rightharpoonup> string) \<Rightarrow> storedFile option \<Rightarrow> oid \<Rightarrow> nat \<Rightarrow> error + post" where
  "newPost rt u b file newId now =
     (case (b ''title'', b ''description'', b ''category'',
            parseField rt (b ''lng''), parseField rt (b ''lat'')) of
        (Some t, Some d, Some c, Some lng, Some lat) \<Rightarrow>
          if trim t = [] \<or> d = [] \<or> c = [] \<or> c \<notin> set categoryEnum then Inl ValidationError
          else Inr \<lparr>pid = newId, title = trim t, description = d, category = c,
                    locationType = ''Point'', coordinates = [lng, lat],
                    address = b ''address'',
                    imageUrl = mediaOfKind ''image'' file,
                    videoUrl = mediaOfKind ''video'' file,
                    status = ''reported'', author = userId u, assignedTo = None,
                    upvotes = [], likes = [], shares = 0, comments = [],
                    createdAt = now, updatedAt = now\<rparr>
      | _ \<Rightarrow> Inl ValidationError)"

text \<open>
  \<open>POST /\<close>: \<open>auth\<close>, then \<open>upload.single('media')\<close> (clock reading \<open>tUpload\<close>), then
  the handler (clock reading \<open>now\<close>, generated id \<open>newId\<close>).
\<close>

definition createPost ::
  "runtime \<Rightarrow> state \<Rightarrow> user \<Rightarrow> (string \<rightharpoonup> string) \<Rightarrow> upload option \<Rightarrow> oid \<Rightarrow> nat \<Rightarrow> nat
     \<Rightarrow> state \<times> response" where
  "createPost rt st u b f newId tUpload now =
     (case uploadSingle f tUpload of
        Inl e \<Rightarrow> (st, errorMiddleware)
      | Inr file \<Rightarrow>
          (case newPost rt u b file newId now of
             Inl e \<Rightarrow> (st, serverError)
           | Inr p \<Rightarrow>
               (case insert_post p st of
                  Inl e \<Rightarrow> (st, serverError)
                | Inr st' \<Rightarrow> (st', Response 201 (OnePost p)))))"

subsection \<open>GetById\<close>

definition getPost :: "state \<Rightarrow> string \<Rightarrow> response" where
  "getPost st idp =
     (case findById st idp of
        Inl e \<Rightarrow> serverError
      | Inr None \<Rightarrow> notFound
      | Inr (Some p) \<Rightarrow> Response 200 (OnePost p))"

subsection \<open>UpdateStatusOrAssignment\<close>

record updateBody =
  b_status :: "jsval option"
  b_assignedTo :: "jsval option"

text \<open>\<open>post.status = status\<close>, for a truthy value.\<close>

definition setStatus :: "jsval option \<Rightarrow> post \<Rightarrow> post" where
  "setStatus v p = (case v of Some (JStr s) \<Rightarrow> p\<lparr>status := s\<rparr> | _ \<Rightarrow> p)"

text \<open>
  \<open>post.assignedTo = assignedTo\<close>, for a truthy value: the string is cast to an
  ObjectId, and a string that does not cast fails the validation of \<open>save\<close>.
\<close>

definition setAssignedTo :: "jsval option \<Rightarrow> post \<Rightarrow> error + post" where
  "setAssignedTo v p =
     (case v of
        Some (JStr s) \<Rightarrow>
          (case castObjectId s of
             None \<Rightarrow> Inl CastError
           | Some a \<Rightarrow> Inr (p\<lparr>assignedTo := Some a\<rparr>))
      | _ \<Rightarrow> Inr p)"

text \<open>
  \<open>PUT /:id\<close>. \<open>save\<close> validates the modified paths (a changed \<open>status\<close> against
  its enumeration) and writes only a modified document, whose \<open>updatedAt\<close> it sets.
\<close>

definition updatePost ::
  "state \<Rightarrow> user \<Rightarrow> string \<Rightarrow> updateBody \<Rightarrow> nat \<Rightarrow> state \<times> response" where
  "updatePost st u idp b now =
     (case findById st idp of
        Inl e \<Rightarrow> (st, serverError)
      | Inr None \<Rightarrow> (st, notFound)
      | Inr (Some p) \<Rightarrow>
          if author p \<noteq> userId u \<and> role u \<noteq> ''municipal''
          then (st, Response 403 (Message ''Not authorized''))
          else
            let p1 = (if truthy (b_status b) then setStatus (b_status b) p else p)
            in (case (if truthy (b_assignedTo b) then setAssignedTo (b_assignedTo b) p1
                      else Inr p1) of
                  Inl e \<Rightarrow> (st, serverError)
                | Inr p2 \<Rightarrow>
                    if status p2 \<noteq> status p \<and> status p2 \<notin> set statusEnum
                    then (st, serverError)
                    else if p2 = p then (st, Response 200 (OnePost p))
                    else
                      let p3 = p2\<lparr>updatedAt := now\<rparr>
                      in (save p3 st, Response 200 (OnePost p3))))"

subsection \<open>AddComment\<close>

definition addComment ::
  "state \<Rightarrow> user \<Rightarrow> string \<Rightarrow> jsval option \<Rightarrow> nat \<Rightarrow> state \<times> response" where
  "addComment st u idp text now =
     (case findById st idp of
        Inl e \<Rightarrow> (st, serverError)
      | Inr None \<Rightarrow> (st, notFound)
      | Inr (Some p) \<Rightarrow>
          (case text of
             Some (JStr s) \<Rightarrow>
               if s = [] then (st, serverError)
               else
                 let p' = p\<lparr>comments := comments p @
                             [\<lparr>c_user = userId u, c_text = s, c_createdAt = now\<rparr>],
                            updatedAt := now\<rparr>
                 in (save p' st, Response 200 (Comments (comments p')))
           | _ \<Rightarrow> (st, serverError)))"

subsection \<open>ToggleLike and ToggleUpvote\<close>

text \<open>
  \<open>post.likes.includes(req.user.userId)\<close> compares each stored ObjectId with the string
  by its hexadecimal form, as the filter's \<open>userId.toString() !== req.user.userId\<close> does.
\<close>

definition toggleLike :: "state \<Rightarrow> user \<Rightarrow> string \<Rightarrow> nat \<Rightarrow> state \<times> response" where
  "toggleLike st u idp now =
     (case findById st idp of
        Inl e \<Rightarrow> (st, serverError)
      | Inr None \<Rightarrow> (st, notFound)
      | Inr (Some p) \<Rightarrow>
          let hasLiked = (userId u \<in> set (likes p));
              p' = (if hasLiked then p\<lparr>likes := filter (\<lambda>x. x \<noteq> userId u) (likes p)\<rparr>
                    else p\<lparr>likes := likes p @ [userId u]\<rparr>);
              saved = p'\<lparr>updatedAt := now\<rparr>
          in (save saved st, Response 200 (LikeResult (length (likes saved)) (\<not> hasLiked))))"

definition toggleUpvote :: "state \<Rightarrow> user \<Rightarrow> string \<Rightarrow> nat \<Rightarrow> state \<times> response" where
  "toggleUpvote st u idp now =
     (case findById st idp of
        Inl e \<Rightarrow> (st, serverError)
      | Inr None \<Rightarrow> (st, notFound)
      | Inr (Some p) \<Rightarrow>
          let hasUpvoted = (userId u \<in> set (upvotes p));
              p' = (if hasUpvoted then p\<lparr>upvotes := filter (\<lambda>x. x \<noteq> userId u) (upvotes p)\<rparr>
                    else p\<lparr>upvotes := upvotes p @ [userId u]\<rparr>);
              saved = p'\<lparr>updatedAt := now\<rparr>
          in (save saved st,
              Response 200 (UpvoteResult (length (upvotes saved)) (\<not> hasUpvoted))))"

subsection \<open>List\<close>

text \<open>
  The query string of \<open>GET /\<close>. \<open>limit\<close> and \<open>page\<close> are kept as the numbers
  \<open>parseInt\<close> reads from them (absent: the defaults 20 and 1).
\<close>

record listQuery =
  q_category :: "string option"
  q_status :: "string option"
  q_near :: "string option"
  q_limit :: "nat option"
  q_page :: "nat option"

text \<open>
  \<open>const [lat, lng, radius = 5000] = near.split(',').map(Number)\<close> and the
  \<open>$near\<close> condition built from it: the query point \<open>[lng, lat]\<close> and
  \<open>$maxDistance\<close>. The storage engine refuses a point that is not a pair of numbers
  within the bounds of the index and a distance that is not a non-negative number.
\<close>

definition nearCondition :: "runtime \<Rightarrow> string \<Rightarrow> error + real list \<times> real" where
  "nearCondition rt near =
     (case map (toNumber rt) (splitComma near) of
        lat # lng # rest \<Rightarrow>
          (let radius = (case rest of [] \<Rightarrow> Some 5000 | r # _ \<Rightarrow> r)
           in case (lat, lng, radius) of
                (Some latN, Some lngN, Some r) \<Rightarrow>
                  if geoPointOk [lngN, latN] \<and> 0 \<le> r then Inr ([lngN, latN], r)
                  else Inl StoreError
              | _ \<Rightarrow> Inl StoreError)
      | _ \<Rightarrow> Inl StoreError)"

text \<open>The conditions of the query object, each present only for a truthy parameter.\<close>

definition matchesQuery :: "runtime \<Rightarrow> listQuery \<Rightarrow> (real list \<times> real) option \<Rightarrow> post \<Rightarrow> bool" where
  "matchesQuery rt q near p =
     ((if truthyStr (q_category q) then Some (category p) = q_category q else True) \<and>
      (if truthyStr (q_status q) then Some (status p) = q_status q else True) \<and>
      (case near of
         None \<Rightarrow> True
       | Some (point, radius) \<Rightarrow> geoDistance rt point (coordinates p) \<le> radius))"

text \<open>
  \<open>.sort({ createdAt: -1 })\<close>, which replaces the order in which \<open>$near\<close> yields the
  documents. (The order among documents of equal \<open>createdAt\<close> is the engine's.)
\<close>

definition sortNewestFirst :: "post list \<Rightarrow> post list" where
  "sortNewestFirst ps = rev (sort_key createdAt ps)"

text \<open>\<open>.limit(n)\<close>: a limit of 0 is no limit.\<close>

definition limitTo :: "nat \<Rightarrow> post list \<Rightarrow> post list" where
  "limitTo n ps = (if n = 0 then ps else take n ps)"

definition listPosts :: "runtime \<Rightarrow> state \<Rightarrow> listQuery \<Rightarrow> response" where
  "listPosts rt st q =
     (let limit = (case q_limit q of None \<Rightarrow> 20 | Some n \<Rightarrow> n);
          page = (case q_page q of None \<Rightarrow> 1 | Some n \<Rightarrow> n);
          skip = (int page - 1) * int limit
      in case (if truthyStr (q_near q) then map_sum id Some (nearCondition rt (the (q_near q)))
               else Inr None) of
           Inl e \<Rightarrow> serverError
         | Inr near \<Rightarrow>
             if skip < 0 then serverError
             else Response 200
                    (Posts (limitTo limit (drop (nat skip)
                       (sortNewestFirst (filter (matchesQuery rt q near) st))))))"

subsection \<open>Reachable collections\<close>

text \<open>
  The collections that the service can hold: the empty one, and what any request of the
  five writing routes makes of a reachable one.
\<close>

inductive reachable :: "state \<Rightarrow> bool" where
  r_init: "reachable []"
| r_create: "reachable st \<Longrightarrow> reachable (fst (createPost rt st u b f newId tUpload now))"
| r_update: "reachable st \<Longrightarrow> reachable (fst (updatePost st u idp ub now))"
| r_comment: "reachable st \<Longrightarrow> reachable (fst (addComment st u idp text now))"
| r_like: "reachable st \<Longrightarrow> reachable (fst (toggleLike st u idp now))"
| r_upvote: "reachable st \<Longrightarrow> reachable (fst (toggleUpvote st u idp now))"

subsection \<open>The properties, as the specification words them\<close>

text \<open>
  A Create request that names a required field wrongly: \<open>title\<close>, \<open>description\<close> or
  \<open>category\<close> missing or empty (the title after trimming), a category outside the
  enumeration, or \<open>lat\<close> or \<open>lng\<close> not a number.
\<close>

definition invalidCreateFields :: "runtime \<Rightarrow> (string \<rightharpoonup> string) \<Rightarrow> bool" where
  "invalidCreateFields rt b =
     ((case b ''title'' of None \<Rightarrow> True | Some t \<Rightarrow> trim t = []) \<or>
      (case b ''description'' of None \<Rightarrow> True | Some d \<Rightarrow> d = []) \<or>
      (case b ''category'' of None \<Rightarrow> True | Some c \<Rightarrow> c \<notin> set categoryEnum) \<or>
      parseField rt (b ''lat'') = None \<or>
      parseField rt (b ''lng'') = None)"

text \<open>
  An upload that is to be refused, in the words of the media constraint: over 10 MB, or
  with an extension or a media type in which none of the words \<open>jpeg\<close>, \<open>jpg\<close>,
  \<open>png\<close>, \<open>gif\<close>, \<open>mp4\<close>, \<open>mov\<close>, \<open>avi\<close> occurs.
\<close>

definition containsAllowedWord :: "string \<Rightarrow> bool" where
  "containsAllowedWord s =
     list_ex (includesStr s) [''jpeg'', ''jpg'', ''png'', ''gif'', ''mp4'', ''mov'', ''avi'']"

definition invalidUpload :: "upload option \<Rightarrow> bool" where
  "invalidUpload f =
     (case f of
        None \<Rightarrow> False
      | Some u \<Rightarrow>
          fsize u > 10 * 1024 * 1024 \<or>
          \<not> containsAllowedWord (toLowerCase (extname (originalname u))) \<or>
          \<not> containsAllowedWord (mimetype u))"



text \<open>Nearest first: along the list, the distance to the query point never decreases.\<close>

definition nearestFirst :: "runtime \<Rightarrow> real list \<Rightarrow> post list \<Rightarrow> bool" where
  "nearestFirst rt point ps =
     sorted_wrt (\<lambda>a b. geoDistance rt point (coordinates a) \<le> geoDistance rt point (coordinates b)) ps"

text \<open>Newest first: along the list, \<open>createdAt\<close> never increases.\<close>

definition newestFirst :: "post list \<Rightarrow> bool" where
  "newestFirst ps = sorted_wrt (\<lambda>a b. createdAt b \<le> createdAt a) ps"

text \<open>No user is twice in the likes or in the upvotes of a post of the collection.\<close>

definition noDuplicateVotes :: "state \<Rightarrow> bool" where
  "noDuplicateVotes st = list_all (\<lambda>p. distinct (likes p) \<and> distinct (upvotes p)) st"

subsection \<open>Example data\<close>

text \<open>
  A runtime for the examples: \<open>parseFloat\<close> and \<open>Number\<close> on the numerals that the
  examples use, and a distance of 111320 metres for each degree of latitude or longitude.
\<close>

definition exampleNumber :: "string \<Rightarrow> real option" where
  "exampleNumber s =
     (if s = ''40.0'' then Some 40
      else if s = ''40.001'' then Some (40 + 1 / 1000)
      else if s = ''-75.0'' then Some (- 75)
      else if s = ''1000'' then Some 1000
      else None)"

definition exampleDistance :: "real list \<Rightarrow> real list \<Rightarrow> real" where
  "exampleDistance a b =
     (case (a, b) of
        ([x1, y1], [x2, y2]) \<Rightarrow> 111320 * (\<bar>x1 - x2\<bar> + \<bar>y1 - y2\<bar>)
      | _ \<Rightarrow> 0)"

definition exampleRuntime :: runtime where
  "exampleRuntime =
     \<lparr>parseFloat = exampleNumber, toNumber = exampleNumber, geoDistance = exampleDistance\<rparr>"

definition alice :: user where
  "alice = \<lparr>userId = ''64b7f0a1c2d3e4f5a6b7c8d9'', role = ''citizen''\<rparr>"

definition bob :: user where
  "bob = \<lparr>userId = ''64b7f0a1c2d3e4f5a6b7c8da'', role = ''citizen''\<rparr>"

definition idA :: oid where
  "idA = ''507f1f77bcf86cd799439011''"

definition idB :: oid where
  "idB = ''507f1f77bcf86cd799439012''"

text \<open>
  A Create request body that also carries a \<open>status\<close> and an \<open>author\<close>, which the
  handler does not read.
\<close>

definition bodyA :: "string \<rightharpoonup> string" where
  "bodyA =
     [''title'' \<mapsto> ''Pothole'', ''description'' \<mapsto> ''Deep pothole'', ''category'' \<mapsto> ''roads'',
      ''lat'' \<mapsto> ''40.0'', ''lng'' \<mapsto> ''-75.0'',
      ''status'' \<mapsto> ''resolved'', ''author'' \<mapsto> ''64b7f0a1c2d3e4f5a6b7c8da'']"

definition bodyB :: "string \<rightharpoonup> string" where
  "bodyB =
     [''title'' \<mapsto> ''Lamp'', ''description'' \<mapsto> ''Street lamp out'', ''category'' \<mapsto> ''lighting'',
      ''lat'' \<mapsto> ''40.001'', ''lng'' \<mapsto> ''-75.0'']"


definition postA :: post where
  "postA =
     \<lparr>pid = idA, title = ''Pothole'', description = ''Deep pothole'', category = ''roads'',
      locationType = ''Point'', coordinates = [- 75, 40], address = None,
      imageUrl = None, videoUrl = None, status = ''reported'',
      author = ''64b7f0a1c2d3e4f5a6b7c8d9'', assignedTo = None,
      upvotes = [], likes = [], shares = 0, comments = [],
      createdAt = 1000, updatedAt = 1000\<rparr>"

definition postB :: post where
  "postB =
     \<lparr>pid = idB, title = ''Lamp'', description = ''Street lamp out'', category = ''lighting'',
      locationType = ''Point'', coordinates = [- 75, 40 + 1 / 1000], address = None,
      imageUrl = None, videoUrl = None, status = ''reported'',
      author = ''64b7f0a1c2d3e4f5a6b7c8d9'', assignedTo = None,
      upvotes = [], likes = [], shares = 0, comments = [],
      createdAt = 2000, updatedAt = 2000\<rparr>"

text \<open>The first post once it is assigned, and once its status is changed.\<close>

definition postAssigned :: post where
  "postAssigned = postA\<lparr>assignedTo := Some ''64b7f0a1c2d3e4f5a6b7c8da''\<rparr>"

definition postInProgress :: post where
  "postInProgress = postA\<lparr>status := ''in progress'', updatedAt := 3000\<rparr>"

definition nearQuery :: listQuery where
  "nearQuery =
     \<lparr>q_category = None, q_status = None, q_near = Some ''40.0,-75.0,1000'',
      q_limit = None, q_page = None\<rparr>"

definition setInProgress :: updateBody where
  "setInProgress = \<lparr>b_status = Some (JStr ''in progress''), b_assignedTo = None\<rparr>"

text \<open>The status as the specification spells it, with an underscore.\<close>

definition setIn_progress :: updateBody where
  "setIn_progress = \<lparr>b_status = Some (JStr ''in_progress''), b_assignedTo = None\<rparr>"

definition clearAssignee :: updateBody where
  "clearAssignee = \<lparr>b_status = Some (JStr []), b_assignedTo = Some JNull\<rparr>"




text \<open>The first post once Alice and Bob have liked it and Bob has upvoted it.\<close>

definition postVoted :: post where
  "postVoted =
     postA\<lparr>likes := [''64b7f0a1c2d3e4f5a6b7c8d9'', ''64b7f0a1c2d3e4f5a6b7c8da''],
           upvotes := [''64b7f0a1c2d3e4f5a6b7c8da''], updatedAt := 1700\<rparr>"

section \<open>Lemmas\<close>

subsection \<open>The collection\<close>

lemma find_pid: "find (\<lambda>q. pid q = i) st = Some p \<Longrightarrow> pid p = i"
  by (induction st) (auto split: if_splits)

lemma find_in_set: "find P st = Some p \<Longrightarrow> p \<in> set st"
  by (induction st) (auto split: if_splits)

lemma findById_pid: "findById st idp = Inr (Some p) \<Longrightarrow> castObjectId idp = Some (pid p)"
  by (auto simp: findById_def dest: find_pid split: option.splits)

lemma findById_find:
  "findById st idp = Inr (Some p) \<Longrightarrow> find (\<lambda>q. pid q = pid p) st = Some p"
  by (auto simp: findById_def dest: find_pid split: option.splits)

lemma findById_in_set: "findById st idp = Inr (Some p) \<Longrightarrow> p \<in> set st"
  by (auto simp: findById_def dest: find_in_set split: option.splits)

lemma find_save_same:
  "find (\<lambda>q. pid q = i) st = Some p \<Longrightarrow> pid p' = i \<Longrightarrow>
   find (\<lambda>q. pid q = i) (save p' st) = Some p'"
  by (induction st) (auto simp: save_def split: if_splits)

lemma find_save_other:
  "pid p' \<noteq> i \<Longrightarrow> find (\<lambda>q. pid q = i) (save p' st) = find (\<lambda>q. pid q = i) st"
  by (induction st) (auto simp: save_def)

lemma findById_save_same:
  assumes "findById st idp = Inr (Some p)" and "pid p' = pid p"
  shows "findById (save p' st) idp = Inr (Some p')"
proof -
  have c: "castObjectId idp = Some (pid p)" using assms(1) by (rule findById_pid)
  have "find (\<lambda>q. pid q = pid p) (save p' st) = Some p'"
    using findById_find [OF assms(1)] assms(2) by (rule find_save_same)
  then show ?thesis by (simp add: findById_def c)
qed

lemma set_save: "q \<in> set (save p st) \<Longrightarrow> q = p \<or> q \<in> set st"
  by (auto simp: save_def split: if_splits)

subsection \<open>The examples, evaluated\<close>

lemma cast_idA: "castObjectId idA = Some idA"
  by (simp add: castObjectId_def idA_def isHexDigit_def toLowerCase_def toLowerChar_def
      upperChars_def lowerChars_def)

lemma cast_idB: "castObjectId idB = Some idB"
  by (simp add: castObjectId_def idB_def isHexDigit_def toLowerCase_def toLowerChar_def
      upperChars_def lowerChars_def)

lemma newPost_A: "newPost exampleRuntime alice bodyA None idA 1000 = Inr postA"
  by (simp add: newPost_def bodyA_def parseField_def exampleRuntime_def exampleNumber_def
      trim_def whitespace_def categoryEnum_def mediaOfKind_def alice_def postA_def)

lemma create_A:
  "createPost exampleRuntime [] alice bodyA None idA 900 1000 =
     ([postA], Response 201 (OnePost postA))"
  by (simp add: createPost_def uploadSingle_def newPost_A insert_post_def geoPointOk_def
      postA_def)

lemma newPost_B: "newPost exampleRuntime alice bodyB None idB 2000 = Inr postB"
  by (simp add: newPost_def bodyB_def parseField_def exampleRuntime_def exampleNumber_def
      trim_def whitespace_def categoryEnum_def mediaOfKind_def alice_def postB_def)

lemma find_A: "findById [postA] idA = Inr (Some postA)"
  by (simp add: findById_def cast_idA) (simp add: postA_def)

lemma reachable_A: "reachable [postA]"
  using r_create [OF r_init, of exampleRuntime alice bodyA None idA 900 1000]
  by (simp add: create_A)

subsection \<open>What the toggles compute\<close>

lemma toggleLike_found:
  "findById st idp = Inr (Some p) \<Longrightarrow>
   toggleLike st u idp now =
     (save (p\<lparr>likes := (if userId u \<in> set (likes p) then filter (\<lambda>x. x \<noteq> userId u) (likes p)
                         else likes p @ [userId u]), updatedAt := now\<rparr>) st,
      Response 200 (LikeResult
        (length (if userId u \<in> set (likes p) then filter (\<lambda>x. x \<noteq> userId u) (likes p)
                 else likes p @ [userId u]))
        (userId u \<notin> set (likes p))))"
  by (simp add: toggleLike_def Let_def)

lemma toggleUpvote_found:
  "findById st idp = Inr (Some p) \<Longrightarrow>
   toggleUpvote st u idp now =
     (save (p\<lparr>upvotes := (if userId u \<in> set (upvotes p)
                           then filter (\<lambda>x. x \<noteq> userId u) (upvotes p)
                           else upvotes p @ [userId u]), updatedAt := now\<rparr>) st,
      Response 200 (UpvoteResult
        (length (if userId u \<in> set (upvotes p) then filter (\<lambda>x. x \<noteq> userId u) (upvotes p)
                 else upvotes p @ [userId u]))
        (userId u \<notin> set (upvotes p))))"
  by (simp add: toggleUpvote_def Let_def)

section \<open>ToggleLike and ToggleUpvote\<close>

text \<open>
  C1. ToggleLike, and ToggleUpvote in the same way, flips the caller's membership. For a
  post that the id names and any user: the first toggle stores the post with the user
  filtered out of the list when the user is in it, and appended otherwise; the user is in
  the new list exactly when the user was not in the old one; the response carries the
  length of the new list and the caller's new membership; and after a second toggle by
  the same user the list holds the same set of users as at the start.
\<close>

theorem toggle_flips_membership:
  assumes "findById st idp = Inr (Some p)"
  shows "(\<exists>p1 p2 r2.
     toggleLike st u idp tFirst =
       (save p1 st, Response 200 (LikeResult (length (likes p1)) (userId u \<in> set (likes p1)))) \<and>
     findById (save p1 st) idp = Inr (Some p1) \<and>
     likes p1 = (if userId u \<in> set (likes p) then filter (\<lambda>x. x \<noteq> userId u) (likes p)
                 else likes p @ [userId u]) \<and>
     (userId u \<in> set (likes p1)) = (userId u \<notin> set (likes p)) \<and>
     toggleLike (save p1 st) u idp tSecond = (save p2 (save p1 st), r2) \<and>
     findById (save p2 (save p1 st)) idp = Inr (Some p2) \<and>
     set (likes p2) = set (likes p))
   \<and> (\<exists>p1 p2 r2.
     toggleUpvote st u idp tFirst =
       (save p1 st,
        Response 200 (UpvoteResult (length (upvotes p1)) (userId u \<in> set (upvotes p1)))) \<and>
     findById (save p1 st) idp = Inr (Some p1) \<and>
     upvotes p1 = (if userId u \<in> set (upvotes p) then filter (\<lambda>x. x \<noteq> userId u) (upvotes p)
                   else upvotes p @ [userId u]) \<and>
     (userId u \<in> set (upvotes p1)) = (userId u \<notin> set (upvotes p)) \<and>
     toggleUpvote (save p1 st) u idp tSecond = (save p2 (save p1 st), r2) \<and>
     findById (save p2 (save p1 st)) idp = Inr (Some p2) \<and>
     set (upvotes p2) = set (upvotes p))"
proof (rule conjI)
  let ?l1 = "if userId u \<in> set (likes p) then filter (\<lambda>x. x \<noteq> userId u) (likes p)
             else likes p @ [userId u]"
  let ?p1 = "p\<lparr>likes := ?l1, updatedAt := tFirst\<rparr>"
  let ?l2 = "if userId u \<in> set (likes ?p1) then filter (\<lambda>x. x \<noteq> userId u) (likes ?p1)
             else likes ?p1 @ [userId u]"
  let ?p2 = "?p1\<lparr>likes := ?l2, updatedAt := tSecond\<rparr>"
  have f1: "findById (save ?p1 st) idp = Inr (Some ?p1)"
    using assms by (rule findById_save_same) simp
  have f2: "findById (save ?p2 (save ?p1 st)) idp = Inr (Some ?p2)"
    using f1 by (rule findById_save_same) simp
  have m: "(userId u \<in> set (likes ?p1)) = (userId u \<notin> set (likes p))" by auto
  have s1: "toggleLike st u idp tFirst =
      (save ?p1 st, Response 200 (LikeResult (length (likes ?p1)) (userId u \<in> set (likes ?p1))))"
    unfolding m using toggleLike_found [OF assms, of u tFirst] by simp
  have s2: "toggleLike (save ?p1 st) u idp tSecond = (save ?p2 (save ?p1 st),
      Response 200 (LikeResult (length ?l2) (userId u \<notin> set (likes ?p1))))"
    using toggleLike_found [OF f1, of u tSecond] by simp
  have l1: "likes ?p1 = ?l1" by simp
  have d: "set (likes ?p2) = set (likes p)" by auto
  show "\<exists>p1 p2 r2.
     toggleLike st u idp tFirst =
       (save p1 st, Response 200 (LikeResult (length (likes p1)) (userId u \<in> set (likes p1)))) \<and>
     findById (save p1 st) idp = Inr (Some p1) \<and>
     likes p1 = ?l1 \<and>
     (userId u \<in> set (likes p1)) = (userId u \<notin> set (likes p)) \<and>
     toggleLike (save p1 st) u idp tSecond = (save p2 (save p1 st), r2) \<and>
     findById (save p2 (save p1 st)) idp = Inr (Some p2) \<and>
     set (likes p2) = set (likes p)"
    using s1 f1 l1 m s2 f2 d by blast
next
  let ?l1 = "if userId u \<in> set (upvotes p) then filter (\<lambda>x. x \<noteq> userId u) (upvotes p)
             else upvotes p @ [userId u]"
  let ?p1 = "p\<lparr>upvotes := ?l1, updatedAt := tFirst\<rparr>"
  let ?l2 = "if userId u \<in> set (upvotes ?p1) then filter (\<lambda>x. x \<noteq> userId u) (upvotes ?p1)
             else upvotes ?p1 @ [userId u]"
  let ?p2 = "?p1\<lparr>upvotes := ?l2, updatedAt := tSecond\<rparr>"
  have f1: "findById (save ?p1 st) idp = Inr (Some ?p1)"
    using assms by (rule findById_save_same) simp
  have f2: "findById (save ?p2 (save ?p1 st)) idp = Inr (Some ?p2)"
    using f1 by (rule findById_save_same) simp
  have m: "(userId u \<in> set (upvotes ?p1)) = (userId u \<notin> set (upvotes p))" by auto
  have s1: "toggleUpvote st u idp tFirst =
      (save ?p1 st,
       Response 200 (UpvoteResult (length (upvotes ?p1)) (userId u \<in> set (upvotes ?p1))))"
    unfolding m using toggleUpvote_found [OF assms, of u tFirst] by simp
  have s2: "toggleUpvote (save ?p1 st) u idp tSecond = (save ?p2 (save ?p1 st),
      Response 200 (UpvoteResult (length ?l2) (userId u \<notin> set (upvotes ?p1))))"
    using toggleUpvote_found [OF f1, of u tSecond] by simp
  have l1: "upvotes ?p1 = ?l1" by simp
  have d: "set (upvotes ?p2) = set (upvotes p)" by auto
  show "\<exists>p1 p2 r2.
     toggleUpvote st u idp tFirst =
       (save p1 st,
        Response 200 (UpvoteResult (length (upvotes p1)) (userId u \<in> set (upvotes p1)))) \<and>
     findById (save p1 st) idp = Inr (Some p1) \<and>
     upvotes p1 = ?l1 \<and>
     (userId u \<in> set (upvotes p1)) = (userId u \<notin> set (upvotes p)) \<and>
     toggleUpvote (save p1 st) u idp tSecond = (save p2 (save p1 st), r2) \<and>
     findById (save p2 (save p1 st)) idp = Inr (Some p2) \<and>
     set (upvotes p2) = set (upvotes p)"
    using s1 f1 l1 m s2 f2 d by blast
qed

theorem toggle_flips_membership_witness:
  "findById [postA] idA = Inr (Some postA) \<and>
   (\<exists>p1 p2 r2.
     toggleLike [postA] alice idA 1500 =
       (save p1 [postA],
        Response 200 (LikeResult (length (likes p1)) (userId alice \<in> set (likes p1)))) \<and>
     likes p1 = [userId alice] \<and>
     toggleLike (save p1 [postA]) alice idA 1600 = (save p2 (save p1 [postA]), r2) \<and>
     findById (save p2 (save p1 [postA])) idA = Inr (Some p2) \<and>
     set (likes p2) = {})"
proof -
  have l: "likes postA = []" by (simp add: postA_def)
  show ?thesis
    using find_A toggle_flips_membership [OF find_A, of alice 1500 1600]
    by (simp add: l) blast
qed

section \<open>What the writing handlers leave in the collection\<close>

lemma createPost_posts:
  assumes "q \<in> set (fst (createPost rt st u b f newId tUpload now))"
  shows "q \<in> set st \<or> (\<exists>file. newPost rt u b file newId now = Inr q)"
  using assms
  by (auto simp: createPost_def insert_post_def split: sum.splits if_splits)

lemma newPost_fields:
  assumes "newPost rt u b file newId now = Inr q"
  shows "status q = ''reported'' \<and> author q = userId u \<and> likes q = [] \<and> upvotes q = []
         \<and> assignedTo q = None \<and> pid q = newId"
  using assms
  by (auto simp: newPost_def split: option.splits if_splits)

lemma updatePost_posts:
  assumes "q \<in> set (fst (updatePost st u idp b now))"
  shows "q \<in> set st \<or>
         (\<exists>p\<in>set st. \<exists>s a. q = p\<lparr>status := s, assignedTo := a, updatedAt := now\<rparr> \<and>
              (s \<in> set statusEnum \<or> s = status p))"
proof (cases "findById st idp")
  case (Inl e)
  then show ?thesis using assms by (simp add: updatePost_def)
next
  case (Inr r)
  show ?thesis
  proof (cases r)
    case None
    then show ?thesis using assms Inr by (simp add: updatePost_def)
  next
    case (Some p)
    have pin: "p \<in> set st" using Inr Some by (auto dest: findById_in_set)
    define p1 where "p1 = (if truthy (b_status b) then setStatus (b_status b) p else p)"
    have p1: "p1 = p\<lparr>status := status p1\<rparr>"
      by (auto simp: p1_def setStatus_def split: option.splits jsval.splits)
    show ?thesis
    proof (cases "if truthy (b_assignedTo b) then setAssignedTo (b_assignedTo b) p1 else Inr p1")
      case (Inl e)
      then show ?thesis using assms Inr Some
        by (simp add: updatePost_def Let_def p1_def split: if_splits)
    next
      case (Inr p2)
      have p2: "p2 = p\<lparr>status := status p2, assignedTo := assignedTo p2\<rparr>"
        using Inr p1
        by (auto simp: setAssignedTo_def split: if_splits option.splits jsval.splits)
      have "q \<in> set st \<or>
            (q = p2\<lparr>updatedAt := now\<rparr> \<and> (status p2 \<in> set statusEnum \<or> status p2 = status p))"
        using assms \<open>findById st idp = Inr r\<close> Some Inr
        by (auto simp: updatePost_def Let_def p1_def split: if_splits dest: set_save)
      then show ?thesis
      proof
        assume "q \<in> set st" then show ?thesis by simp
      next
        assume a: "q = p2\<lparr>updatedAt := now\<rparr> \<and>
                   (status p2 \<in> set statusEnum \<or> status p2 = status p)"
        have "q = p\<lparr>status := status p2, assignedTo := assignedTo p2, updatedAt := now\<rparr>"
          using a by (subst (asm) p2) simp
        then show ?thesis using pin a by blast
      qed
    qed
  qed
qed

lemma addComment_posts:
  assumes "q \<in> set (fst (addComment st u idp text now))"
  shows "q \<in> set st \<or>
         (\<exists>p\<in>set st. \<exists>cs. q = p\<lparr>comments := cs, updatedAt := now\<rparr>)"
  using assms
  by (auto simp: addComment_def Let_def split: sum.splits option.splits jsval.splits if_splits
      dest!: set_save findById_in_set)

lemma toggleLike_posts:
  assumes "q \<in> set (fst (toggleLike st u idp now))"
  shows "q \<in> set st \<or>
         (\<exists>p\<in>set st. q = p\<lparr>likes := (if userId u \<in> set (likes p)
                                        then filter (\<lambda>x. x \<noteq> userId u) (likes p)
                                        else likes p @ [userId u]), updatedAt := now\<rparr>)"
  using assms
  by (auto simp: toggleLike_def Let_def split: sum.splits option.splits if_splits
      dest!: set_save findById_in_set)

lemma toggleUpvote_posts:
  assumes "q \<in> set (fst (toggleUpvote st u idp now))"
  shows "q \<in> set st \<or>
         (\<exists>p\<in>set st. q = p\<lparr>upvotes := (if userId u \<in> set (upvotes p)
                                        then filter (\<lambda>x. x \<noteq> userId u) (upvotes p)
                                        else upvotes p @ [userId u]), updatedAt := now\<rparr>)"
  using assms
  by (auto simp: toggleUpvote_def Let_def split: sum.splits option.splits if_splits
      dest!: set_save findById_in_set)

section \<open>Create\<close>

lemma createPost_created:
  assumes "code (snd (createPost rt st u b f newId tUpload now)) = 201"
  shows "\<exists>file p. uploadSingle f tUpload = Inr file \<and> newPost rt u b file newId now = Inr p \<and>
           insert_post p st = Inr (st @ [p]) \<and>
           createPost rt st u b f newId tUpload now = (st @ [p], Response 201 (OnePost p))"
  using assms
  by (auto simp: createPost_def insert_post_def errorMiddleware_def serverError_def
      split: sum.splits if_splits)

lemma createPost_codes:
  "code (snd (createPost rt st u b f newId tUpload now)) = 201 \<or>
   (code (snd (createPost rt st u b f newId tUpload now)) = 500 \<and>
    fst (createPost rt st u b f newId tUpload now) = st)"
  by (auto simp: createPost_def insert_post_def errorMiddleware_def serverError_def
      split: sum.splits if_splits)

lemma newPost_valid:
  assumes "\<not> invalidCreateFields rt b"
  shows "\<exists>p. newPost rt u b file newId now = Inr p \<and>
          coordinates p = [the (parseField rt (b ''lng'')), the (parseField rt (b ''lat''))]"
  using assms
  by (auto simp: invalidCreateFields_def newPost_def categoryEnum_def split: option.splits)



lemma uploadSingle_valid:
  assumes "\<not> invalidUpload f"
  shows "\<exists>file. uploadSingle f t = Inr file"
  using assms
  by (auto simp: invalidUpload_def containsAllowedWord_def uploadSingle_def fileFilter_def
      filetypesTest_def filetypes_def fileSizeLimit_def split: option.splits)

text \<open>
  C3. Whenever Create answers 201, the post it returns (and appends to the collection) has
  status \<open>reported\<close> and the authenticated caller as its author, for every request
  body: the handler reads neither a \<open>status\<close> nor an \<open>author\<close> field. And a request
  whose required fields are valid, whose upload is accepted, whose point is within the
  bounds of the index and whose generated id is new, is answered 201.
\<close>

theorem create_status_author:
  "(code (snd (createPost rt st u b f newId tUpload now)) = 201 \<longrightarrow>
      (\<exists>p. createPost rt st u b f newId tUpload now = (st @ [p], Response 201 (OnePost p)) \<and>
           status p = ''reported'' \<and> author p = userId u)) \<and>
   (\<not> invalidCreateFields rt b \<and> \<not> invalidUpload f \<and>
    geoPointOk [the (parseField rt (b ''lng'')), the (parseField rt (b ''lat''))] \<and>
    newId \<notin> set (map pid st) \<longrightarrow>
      code (snd (createPost rt st u b f newId tUpload now)) = 201)"
proof (intro conjI impI)
  assume "code (snd (createPost rt st u b f newId tUpload now)) = 201"
  then obtain sf p where np: "newPost rt u b sf newId now = Inr p"
    and r: "createPost rt st u b f newId tUpload now = (st @ [p], Response 201 (OnePost p))"
    using createPost_created by blast
  from np have "status p = ''reported'' \<and> author p = userId u"
    using newPost_fields by blast
  with r show "\<exists>p. createPost rt st u b f newId tUpload now = (st @ [p], Response 201 (OnePost p)) \<and>
           status p = ''reported'' \<and> author p = userId u" by blast
next
  assume a: "\<not> invalidCreateFields rt b \<and> \<not> invalidUpload f \<and>
    geoPointOk [the (parseField rt (b ''lng'')), the (parseField rt (b ''lat''))] \<and>
    newId \<notin> set (map pid st)"
  obtain sf where up: "uploadSingle f tUpload = Inr sf"
    using a uploadSingle_valid by blast
  obtain p where np: "newPost rt u b sf newId now = Inr p"
    and co: "coordinates p = [the (parseField rt (b ''lng'')), the (parseField rt (b ''lat''))]"
    using a newPost_valid by blast
  have "pid p = newId" using np newPost_fields by blast
  then have "insert_post p st = Inr (st @ [p])"
    using a co by (simp add: insert_post_def)
  then show "code (snd (createPost rt st u b f newId tUpload now)) = 201"
    by (simp add: createPost_def up np)
qed

theorem create_status_author_witness:
  "bodyA ''status'' = Some ''resolved'' \<and> bodyA ''author'' = Some (userId bob) \<and>
   code (snd (createPost exampleRuntime [] alice bodyA None idA 900 1000)) = 201 \<and>
   (\<exists>p. createPost exampleRuntime [] alice bodyA None idA 900 1000 =
          ([] @ [p], Response 201 (OnePost p)) \<and>
        status p = ''reported'' \<and> author p = userId alice)"
proof -
  have b: "bodyA ''status'' = Some ''resolved'' \<and> bodyA ''author'' = Some (userId bob)"
    by (simp add: bodyA_def bob_def)
  have c: "code (snd (createPost exampleRuntime [] alice bodyA None idA 900 1000)) = 201"
    by (simp add: create_A)
  have e: "\<exists>p. createPost exampleRuntime [] alice bodyA None idA 900 1000 =
          ([] @ [p], Response 201 (OnePost p)) \<and>
        status p = ''reported'' \<and> author p = userId alice"
    using create_status_author [of exampleRuntime "[]" alice bodyA None idA 900 1000] c
    by blast
  show ?thesis using b c e by (intro conjI) simp_all
qed

text \<open>
  The word test of the filter means occurrence: \<open>includesStr s w\<close> holds exactly when
  \<open>w\<close> stands somewhere inside \<open>s\<close>.
\<close>

lemma includesStr_iff: "includesStr s w = (\<exists>a c. s = a @ w @ c)"
proof (induction s)
  case Nil
  show ?case by auto
next
  case (Cons x xs)
  show ?case
  proof
    assume "includesStr (x # xs) w"
    then consider "startsWith (x # xs) w" | "includesStr xs w" by auto
    then show "\<exists>a c. x # xs = a @ w @ c"
    proof cases
      case 1
      then have "x # xs = [] @ w @ drop (length w) (x # xs)"
        unfolding startsWith_def by (metis append_Nil append_take_drop_id)
      then show ?thesis by blast
    next
      case 2
      then obtain a c where "xs = a @ w @ c" using Cons.IH by blast
      then have "x # xs = (x # a) @ w @ c" by simp
      then show ?thesis by blast
    qed
  next
    assume "\<exists>a c. x # xs = a @ w @ c"
    then obtain a c where e: "x # xs = a @ w @ c" by blast
    show "includesStr (x # xs) w"
    proof (cases a)
      case Nil
      then have "take (length w) (x # xs) = w" using e by simp
      then show ?thesis by (simp add: startsWith_def)
    next
      case (Cons y ys)
      then have "xs = ys @ w @ c" using e by simp
      then have "includesStr xs w" using Cons.IH by blast
      then show ?thesis by simp
    qed
  qed
qed

text \<open>The filter of the middleware refuses exactly the uploads described in those words.\<close>

lemma invalidUpload_iff:
  "invalidUpload (Some u) = (fsize u > fileSizeLimit \<or> \<not> fileFilter u)"
  by (auto simp: invalidUpload_def containsAllowedWord_def fileFilter_def filetypesTest_def
      filetypes_def fileSizeLimit_def)







section \<open>GetById\<close>

text \<open>
  C5. The claim is that GetById answers NotFound, and never a server error, for every id
  string that names no post. The handler does so only for a string that casts to an
  ObjectId: for the id \<open>abc\<close> the cast inside \<open>findById\<close> throws, the \<open>catch\<close> block
  answers, and the response is 500 in every collection.
\<close>

theorem get_by_id_malformed: "getPost st ''abc'' = Response 500 (Message ''Server error'')"
  by (simp add: getPost_def findById_def castObjectId_def serverError_def)

lemma get_by_id_absent:
  "findById st idp = Inr None \<Longrightarrow> getPost st idp = Response 404 (Message ''Post not found'')"
  by (simp add: getPost_def notFound_def)

section \<open>UpdateStatusOrAssignment\<close>

text \<open>
  C2. The claim is that UpdateStatusOrAssignment fails with NotFound when the post id is
  absent and with Forbidden for a caller who is neither author nor municipal. The handler
  answers 404 only for an id that casts to an ObjectId: for the id \<open>abc\<close>, which names
  no post, the cast inside \<open>findById\<close> throws and the \<open>catch\<close> block answers 500, for
  every collection, caller and payload (the defect of GetById, C5, in this handler).
\<close>

theorem update_malformed_id_is_500:
  "updatePost st u ''abc'' b now = (st, Response 500 (Message ''Server error''))"
  by (simp add: updatePost_def findById_def castObjectId_def serverError_def)

text \<open>
  What the handler does for an id that casts: 404 when \<open>findById\<close> finds no post, and
  403 for a caller who is neither the author of the post found nor of role
  \<open>municipal\<close>, whatever the payload; in both cases the collection is returned as it was.
\<close>

theorem update_notfound_forbidden:
  "(findById st idp = Inr None \<longrightarrow>
      updatePost st u idp b now = (st, Response 404 (Message ''Post not found''))) \<and>
   (findById st idp = Inr (Some p) \<and> author p \<noteq> userId u \<and> role u \<noteq> ''municipal'' \<longrightarrow>
      updatePost st u idp b now = (st, Response 403 (Message ''Not authorized'')))"
  by (simp add: updatePost_def notFound_def)

lemma find_B_absent: "findById [postA] idB = Inr None"
  by (simp add: findById_def cast_idB) (simp add: postA_def idA_def idB_def)

theorem update_notfound_forbidden_witness:
  "findById [postA] idB = Inr None \<and>
   updatePost [postA] bob idB setInProgress 3000 =
     ([postA], Response 404 (Message ''Post not found'')) \<and>
   findById [postA] idA = Inr (Some postA) \<and>
   author postA \<noteq> userId bob \<and> role bob \<noteq> ''municipal'' \<and>
   updatePost [postA] bob idA setInProgress 3000 =
     ([postA], Response 403 (Message ''Not authorized''))"
proof -
  have a: "author postA \<noteq> userId bob \<and> role bob \<noteq> ''municipal''"
    by (simp add: postA_def bob_def)
  show ?thesis
    using find_B_absent find_A a
      update_notfound_forbidden [of "[postA]" idB bob setInProgress 3000 postA]
      update_notfound_forbidden [of "[postA]" idA bob setInProgress 3000 postA]
    by simp
qed

lemma updatePost_outcome:
  assumes "findById st idp = Inr (Some p)"
  shows "fst (updatePost st u idp b now) = st \<or>
         (\<exists>p2. fst (updatePost st u idp b now) = save (p2\<lparr>updatedAt := now\<rparr>) st \<and>
               p2 = p\<lparr>status := status p2, assignedTo := assignedTo p2\<rparr> \<and>
               (\<not> truthy (b_status b) \<longrightarrow> status p2 = status p) \<and>
               (\<not> truthy (b_assignedTo b) \<longrightarrow> assignedTo p2 = assignedTo p) \<and>
               (assignedTo p \<noteq> None \<longrightarrow> assignedTo p2 \<noteq> None) \<and>
               (status p2 \<in> set statusEnum \<or> status p2 = status p))"
proof -
  define p1 where "p1 = (if truthy (b_status b) then setStatus (b_status b) p else p)"
  define r2 where
    "r2 = (if truthy (b_assignedTo b) then setAssignedTo (b_assignedTo b) p1 else Inr p1)"
  have p1: "p1 = p\<lparr>status := status p1\<rparr>"
    by (auto simp: p1_def setStatus_def split: option.splits jsval.splits)
  have s1: "\<not> truthy (b_status b) \<Longrightarrow> status p1 = status p"
    by (simp add: p1_def)
  have a1: "assignedTo p1 = assignedTo p"
    by (subst p1) simp
  have u: "updatePost st u idp b now =
      (if author p \<noteq> userId u \<and> role u \<noteq> ''municipal''
       then (st, Response 403 (Message ''Not authorized''))
       else (case r2 of
               Inl e \<Rightarrow> (st, serverError)
             | Inr p2 \<Rightarrow>
                 if status p2 \<noteq> status p \<and> status p2 \<notin> set statusEnum
                 then (st, serverError)
                 else if p2 = p then (st, Response 200 (OnePost p))
                 else (save (p2\<lparr>updatedAt := now\<rparr>) st,
                       Response 200 (OnePost (p2\<lparr>updatedAt := now\<rparr>)))))"
    unfolding updatePost_def Let_def p1_def r2_def by (simp add: assms)
  show ?thesis
  proof (cases r2)
    case (Inl e)
    then show ?thesis by (simp add: u)
  next
    case (Inr p2)
    have p2: "p2 = p1\<lparr>assignedTo := assignedTo p2\<rparr>"
      using Inr
      by (auto simp: r2_def setAssignedTo_def split: if_splits option.splits jsval.splits)
    have s2: "status p2 = status p1" by (subst p2) simp
    have e: "p2 = p\<lparr>status := status p2, assignedTo := assignedTo p2\<rparr>"
      by (subst p2, subst p1) (simp add: s2)
    have a2: "\<not> truthy (b_assignedTo b) \<Longrightarrow> assignedTo p2 = assignedTo p"
      using Inr a1 by (auto simp: r2_def)
    have a3: "assignedTo p \<noteq> None \<Longrightarrow> assignedTo p2 \<noteq> None"
      using Inr a1
      by (auto simp: r2_def setAssignedTo_def split: if_splits option.splits jsval.splits)
    show ?thesis
    proof (cases "fst (updatePost st u idp b now) = st")
      case True
      then show ?thesis by simp
    next
      case False
      then have w: "fst (updatePost st u idp b now) = save (p2\<lparr>updatedAt := now\<rparr>) st"
        and v: "status p2 \<in> set statusEnum \<or> status p2 = status p"
        using Inr by (auto simp: u split: if_splits)
      show ?thesis using w e s1 s2 a2 a3 v by metis
    qed
  qed
qed

lemma updatePost_found:
  assumes "findById st idp = Inr (Some p)"
  shows "\<exists>p'. findById (fst (updatePost st u idp b now)) idp = Inr (Some p') \<and>
           p' = p\<lparr>status := status p', assignedTo := assignedTo p', updatedAt := updatedAt p'\<rparr> \<and>
           (\<not> truthy (b_status b) \<longrightarrow> status p' = status p) \<and>
           (\<not> truthy (b_assignedTo b) \<longrightarrow> assignedTo p' = assignedTo p) \<and>
           (assignedTo p \<noteq> None \<longrightarrow> assignedTo p' \<noteq> None) \<and>
           (\<forall>i. i \<noteq> pid p \<longrightarrow>
              find (\<lambda>q. pid q = i) (fst (updatePost st u idp b now)) = find (\<lambda>q. pid q = i) st)"
  using updatePost_outcome [OF assms, of u b now]
proof
  assume same: "fst (updatePost st u idp b now) = st"
  show ?thesis
    unfolding same by (rule exI [of _ p]) (simp add: assms)
next
  assume "\<exists>p2. fst (updatePost st u idp b now) = save (p2\<lparr>updatedAt := now\<rparr>) st \<and>
               p2 = p\<lparr>status := status p2, assignedTo := assignedTo p2\<rparr> \<and>
               (\<not> truthy (b_status b) \<longrightarrow> status p2 = status p) \<and>
               (\<not> truthy (b_assignedTo b) \<longrightarrow> assignedTo p2 = assignedTo p) \<and>
               (assignedTo p \<noteq> None \<longrightarrow> assignedTo p2 \<noteq> None) \<and>
               (status p2 \<in> set statusEnum \<or> status p2 = status p)"
  then obtain p2 where w: "fst (updatePost st u idp b now) = save (p2\<lparr>updatedAt := now\<rparr>) st"
    and e: "p2 = p\<lparr>status := status p2, assignedTo := assignedTo p2\<rparr>"
    and s: "\<not> truthy (b_status b) \<longrightarrow> status p2 = status p"
    and a: "\<not> truthy (b_assignedTo b) \<longrightarrow> assignedTo p2 = assignedTo p"
    and k: "assignedTo p \<noteq> None \<longrightarrow> assignedTo p2 \<noteq> None"
    by (elim exE conjE)
  define p' where "p' = p2\<lparr>updatedAt := now\<rparr>"
  have i: "pid p' = pid p" unfolding p'_def by (subst e) simp
  have f: "findById (save p' st) idp = Inr (Some p')"
    using assms i by (rule findById_save_same)
  have q: "p' = p\<lparr>status := status p', assignedTo := assignedTo p', updatedAt := updatedAt p'\<rparr>"
    unfolding p'_def by (subst e) simp
  have o: "\<forall>j. j \<noteq> pid p \<longrightarrow> find (\<lambda>q. pid q = j) (save p' st) = find (\<lambda>q. pid q = j) st"
    using i by (simp add: find_save_other)
  have s': "\<not> truthy (b_status b) \<longrightarrow> status p' = status p" using s by (simp add: p'_def)
  have a': "\<not> truthy (b_assignedTo b) \<longrightarrow> assignedTo p' = assignedTo p"
    using a by (simp add: p'_def)
  have k': "assignedTo p \<noteq> None \<longrightarrow> assignedTo p' \<noteq> None" using k by (simp add: p'_def)
  have w': "fst (updatePost st u idp b now) = save p' st" using w by (simp add: p'_def)
  show ?thesis
    unfolding w' by (rule exI [of _ p']) (intro conjI f q s' a' k' o)
qed

text \<open>
  C8. UpdateStatusOrAssignment changes nothing but \<open>status\<close> and \<open>assignedTo\<close> (and
  the \<open>updatedAt\<close> stamp): for a post that the id names, any caller and any payload, the
  post found under the id afterwards has the same title, description, category, location,
  author, media URLs, likes, upvotes, shares and comments; a status or assignedTo that the
  payload omits keeps its value; and every other post of the collection is untouched.
\<close>

theorem update_frame:
  assumes "findById st idp = Inr (Some p)"
  shows "\<exists>p'. findById (fst (updatePost st u idp b now)) idp = Inr (Some p') \<and>
     title p' = title p \<and> description p' = description p \<and> category p' = category p \<and>
     locationType p' = locationType p \<and> coordinates p' = coordinates p \<and>
     address p' = address p \<and> author p' = author p \<and>
     imageUrl p' = imageUrl p \<and> videoUrl p' = videoUrl p \<and>
     likes p' = likes p \<and> upvotes p' = upvotes p \<and> shares p' = shares p \<and>
     comments p' = comments p \<and> createdAt p' = createdAt p \<and> pid p' = pid p \<and>
     (b_status b = None \<longrightarrow> status p' = status p) \<and>
     (b_assignedTo b = None \<longrightarrow> assignedTo p' = assignedTo p) \<and>
     (\<forall>i. i \<noteq> pid p \<longrightarrow>
        find (\<lambda>q. pid q = i) (fst (updatePost st u idp b now)) = find (\<lambda>q. pid q = i) st)"
proof -
  obtain p' where f: "findById (fst (updatePost st u idp b now)) idp = Inr (Some p')"
    and e: "p' = p\<lparr>status := status p', assignedTo := assignedTo p', updatedAt := updatedAt p'\<rparr>"
    and s: "\<not> truthy (b_status b) \<longrightarrow> status p' = status p"
    and a: "\<not> truthy (b_assignedTo b) \<longrightarrow> assignedTo p' = assignedTo p"
    and o: "\<forall>i. i \<noteq> pid p \<longrightarrow>
        find (\<lambda>q. pid q = i) (fst (updatePost st u idp b now)) = find (\<lambda>q. pid q = i) st"
    using updatePost_found [OF assms, of u b now] by (elim exE conjE)
  have t: "title p' = title p" "description p' = description p" "category p' = category p"
    "locationType p' = locationType p" "coordinates p' = coordinates p"
    "address p' = address p" "author p' = author p"
    "imageUrl p' = imageUrl p" "videoUrl p' = videoUrl p"
    "likes p' = likes p" "upvotes p' = upvotes p" "shares p' = shares p"
    "comments p' = comments p" "createdAt p' = createdAt p" "pid p' = pid p"
    by (subst e, simp)+
  have s': "b_status b = None \<longrightarrow> status p' = status p" using s by (simp add: truthy_def)
  have a': "b_assignedTo b = None \<longrightarrow> assignedTo p' = assignedTo p"
    using a by (simp add: truthy_def)
  show ?thesis
    by (rule exI [of _ p']) (intro conjI f t s' a' o)
qed

lemma update_A_inProgress:
  "updatePost [postA] alice idA setInProgress 3000 =
     ([postInProgress], Response 200 (OnePost postInProgress))"
  by (simp add: updatePost_def find_A)
     (simp add: postA_def alice_def setInProgress_def truthy_def setStatus_def statusEnum_def
        save_def postInProgress_def Let_def)

theorem update_frame_witness:
  "findById [postA] idA = Inr (Some postA) \<and>
   fst (updatePost [postA] alice idA setInProgress 3000) = [postInProgress] \<and>
   status postInProgress \<noteq> status postA \<and>
   (\<exists>p'. findById [postInProgress] idA = Inr (Some p') \<and>
      title p' = title postA \<and> author p' = author postA \<and> likes p' = likes postA \<and>
      comments p' = comments postA \<and> assignedTo p' = assignedTo postA)"
proof -
  have w: "fst (updatePost [postA] alice idA setInProgress 3000) = [postInProgress]"
    by (simp add: update_A_inProgress)
  have n: "status postInProgress \<noteq> status postA"
    by (simp add: postInProgress_def postA_def)
  have b: "b_assignedTo setInProgress = None" by (simp add: setInProgress_def)
  have e: "\<exists>p'. findById [postInProgress] idA = Inr (Some p') \<and>
      title p' = title postA \<and> author p' = author postA \<and> likes p' = likes postA \<and>
      comments p' = comments postA \<and> assignedTo p' = assignedTo postA"
    using update_frame [OF find_A, of alice setInProgress 3000] b unfolding w by blast
  show ?thesis using find_A w n e by (intro conjI)
qed

text \<open>
  C10. In UpdateStatusOrAssignment a field that is provided but falsy is ignored: with
  the empty string as \<open>status\<close> the status keeps its value, with \<open>null\<close> or the empty
  string as \<open>assignedTo\<close> the assignee keeps its value, and so a post that has an
  assignee still has one after the operation, whatever the payload.
\<close>

theorem update_ignores_falsy:
  assumes "findById st idp = Inr (Some p)"
  shows "\<exists>p'. findById (fst (updatePost st u idp b now)) idp = Inr (Some p') \<and>
     (b_status b = Some (JStr []) \<longrightarrow> status p' = status p) \<and>
     (b_assignedTo b = Some JNull \<or> b_assignedTo b = Some (JStr []) \<longrightarrow>
        assignedTo p' = assignedTo p) \<and>
     (\<not> truthy (b_status b) \<longrightarrow> status p' = status p) \<and>
     (\<not> truthy (b_assignedTo b) \<longrightarrow> assignedTo p' = assignedTo p) \<and>
     (assignedTo p \<noteq> None \<longrightarrow> assignedTo p' \<noteq> None)"
proof -
  obtain p' where f: "findById (fst (updatePost st u idp b now)) idp = Inr (Some p')"
    and s: "\<not> truthy (b_status b) \<longrightarrow> status p' = status p"
    and a: "\<not> truthy (b_assignedTo b) \<longrightarrow> assignedTo p' = assignedTo p"
    and k: "assignedTo p \<noteq> None \<longrightarrow> assignedTo p' \<noteq> None"
    using updatePost_found [OF assms, of u b now] by (elim exE conjE)
  have s': "b_status b = Some (JStr []) \<longrightarrow> status p' = status p"
    using s by (simp add: truthy_def)
  have a': "b_assignedTo b = Some JNull \<or> b_assignedTo b = Some (JStr []) \<longrightarrow>
        assignedTo p' = assignedTo p"
    using a by (auto simp: truthy_def)
  show ?thesis
    by (rule exI [of _ p']) (intro conjI f s' a' s a k)
qed

lemma find_Assigned: "findById [postAssigned] idA = Inr (Some postAssigned)"
  by (simp add: findById_def cast_idA) (simp add: postAssigned_def postA_def)

theorem update_ignores_falsy_witness:
  "findById [postAssigned] idA = Inr (Some postAssigned) \<and>
   b_status clearAssignee = Some (JStr []) \<and> b_assignedTo clearAssignee = Some JNull \<and>
   assignedTo postAssigned = Some (userId bob) \<and>
   (\<exists>p'. findById (fst (updatePost [postAssigned] alice idA clearAssignee 3000)) idA =
            Inr (Some p') \<and>
      status p' = status postAssigned \<and> assignedTo p' = Some (userId bob))"
proof -
  have b: "b_status clearAssignee = Some (JStr [])" "b_assignedTo clearAssignee = Some JNull"
    by (simp_all add: clearAssignee_def)
  have a: "assignedTo postAssigned = Some (userId bob)"
    by (simp add: postAssigned_def bob_def)
  have e: "\<exists>p'. findById (fst (updatePost [postAssigned] alice idA clearAssignee 3000)) idA =
            Inr (Some p') \<and>
      status p' = status postAssigned \<and> assignedTo p' = Some (userId bob)"
    using update_ignores_falsy [OF find_Assigned, of alice clearAssignee 3000] b a by auto
  show ?thesis using find_Assigned b a e by (intro conjI)
qed

section \<open>Invariants of the collection\<close>

lemma distinct_toggled:
  "distinct xs \<Longrightarrow>
   distinct (if x \<in> set xs then filter (\<lambda>y. y \<noteq> x) xs else xs @ [x])"
  by simp

lemma noDup_toggleLike:
  assumes "noDuplicateVotes st"
  shows "noDuplicateVotes (fst (toggleLike st u idp now))"
  unfolding noDuplicateVotes_def list_all_iff
proof
  fix q assume "q \<in> set (fst (toggleLike st u idp now))"
  then show "distinct (likes q) \<and> distinct (upvotes q)"
    using toggleLike_posts [of q st u idp now] assms
    by (auto simp: noDuplicateVotes_def list_all_iff)
qed

lemma noDup_toggleUpvote:
  assumes "noDuplicateVotes st"
  shows "noDuplicateVotes (fst (toggleUpvote st u idp now))"
  unfolding noDuplicateVotes_def list_all_iff
proof
  fix q assume "q \<in> set (fst (toggleUpvote st u idp now))"
  then show "distinct (likes q) \<and> distinct (upvotes q)"
    using toggleUpvote_posts [of q st u idp now] assms
    by (auto simp: noDuplicateVotes_def list_all_iff)
qed

lemma noDup_updatePost:
  assumes "noDuplicateVotes st"
  shows "noDuplicateVotes (fst (updatePost st u idp b now))"
  unfolding noDuplicateVotes_def list_all_iff
proof
  fix q assume "q \<in> set (fst (updatePost st u idp b now))"
  then show "distinct (likes q) \<and> distinct (upvotes q)"
    using updatePost_posts [of q st u idp b now] assms
    by (auto simp: noDuplicateVotes_def list_all_iff)
qed

lemma noDup_addComment:
  assumes "noDuplicateVotes st"
  shows "noDuplicateVotes (fst (addComment st u idp tx now))"
  unfolding noDuplicateVotes_def list_all_iff
proof
  fix q assume "q \<in> set (fst (addComment st u idp tx now))"
  then show "distinct (likes q) \<and> distinct (upvotes q)"
    using addComment_posts [of q st u idp tx now] assms
    by (auto simp: noDuplicateVotes_def list_all_iff)
qed

lemma noDup_createPost:
  assumes "noDuplicateVotes st"
  shows "noDuplicateVotes (fst (createPost rt st u b f newId tUpload now))"
  unfolding noDuplicateVotes_def list_all_iff
proof
  fix q assume "q \<in> set (fst (createPost rt st u b f newId tUpload now))"
  then show "distinct (likes q) \<and> distinct (upvotes q)"
    using createPost_posts [of q rt st u b f newId tUpload now] assms
    by (auto simp: noDuplicateVotes_def list_all_iff dest: newPost_fields)
qed

lemma reachable_noDup: "reachable st \<Longrightarrow> noDuplicateVotes st"
proof (induction rule: reachable.induct)
  case r_init
  show ?case by (simp add: noDuplicateVotes_def)
qed (simp_all add: noDup_createPost noDup_updatePost noDup_addComment noDup_toggleLike
      noDup_toggleUpvote)

text \<open>
  C9. In every reachable collection no post has a user twice among its likes or among its
  upvotes, and each writing operation (ToggleLike and ToggleUpvote in particular) keeps a
  collection free of such duplicates.
\<close>

theorem no_duplicate_votes:
  "(reachable st \<longrightarrow> noDuplicateVotes st) \<and>
   (noDuplicateVotes st \<longrightarrow>
      noDuplicateVotes (fst (toggleLike st u idp now)) \<and>
      noDuplicateVotes (fst (toggleUpvote st u idp now)) \<and>
      noDuplicateVotes (fst (updatePost st u idp ub now)) \<and>
      noDuplicateVotes (fst (addComment st u idp tx now)) \<and>
      noDuplicateVotes (fst (createPost rt st u b f newId tUpload now)))"
  by (simp add: reachable_noDup noDup_createPost noDup_updatePost noDup_addComment
      noDup_toggleLike noDup_toggleUpvote)

lemma find_single: "pid p = idA \<Longrightarrow> findById [p] idA = Inr (Some p)"
  by (simp add: findById_def cast_idA)

lemma like_A_alice:
  "fst (toggleLike [postA] alice idA 1500) =
     [postA\<lparr>likes := [''64b7f0a1c2d3e4f5a6b7c8d9''], updatedAt := 1500\<rparr>]"
  by (simp add: toggleLike_found [OF find_A])
     (simp add: save_def postA_def alice_def)

lemma like_A_bob:
  "fst (toggleLike [postA\<lparr>likes := [''64b7f0a1c2d3e4f5a6b7c8d9''], updatedAt := 1500\<rparr>]
          bob idA 1600) =
     [postA\<lparr>likes := [''64b7f0a1c2d3e4f5a6b7c8d9'', ''64b7f0a1c2d3e4f5a6b7c8da''],
            updatedAt := 1600\<rparr>]"
proof -
  have f: "findById [postA\<lparr>likes := [''64b7f0a1c2d3e4f5a6b7c8d9''], updatedAt := 1500\<rparr>] idA =
      Inr (Some (postA\<lparr>likes := [''64b7f0a1c2d3e4f5a6b7c8d9''], updatedAt := 1500\<rparr>))"
    by (rule find_single) (simp add: postA_def)
  show ?thesis
    by (simp add: toggleLike_found [OF f]) (simp add: save_def postA_def bob_def)
qed

lemma upvote_A_bob:
  "fst (toggleUpvote
          [postA\<lparr>likes := [''64b7f0a1c2d3e4f5a6b7c8d9'', ''64b7f0a1c2d3e4f5a6b7c8da''],
                 updatedAt := 1600\<rparr>] bob idA 1700) = [postVoted]"
proof -
  have f: "findById
      [postA\<lparr>likes := [''64b7f0a1c2d3e4f5a6b7c8d9'', ''64b7f0a1c2d3e4f5a6b7c8da''],
             updatedAt := 1600\<rparr>] idA =
      Inr (Some (postA\<lparr>likes := [''64b7f0a1c2d3e4f5a6b7c8d9'', ''64b7f0a1c2d3e4f5a6b7c8da''],
                       updatedAt := 1600\<rparr>))"
    by (rule find_single) (simp add: postA_def)
  show ?thesis
    by (simp add: toggleUpvote_found [OF f])
       (simp add: save_def postA_def bob_def postVoted_def)
qed

lemma reachable_Voted: "reachable [postVoted]"
proof -
  have "reachable (fst (toggleLike [postA] alice idA 1500))"
    using reachable_A by (rule r_like)
  then have "reachable (fst (toggleLike (fst (toggleLike [postA] alice idA 1500)) bob idA 1600))"
    by (rule r_like)
  then have "reachable (fst (toggleUpvote
      (fst (toggleLike (fst (toggleLike [postA] alice idA 1500)) bob idA 1600)) bob idA 1700))"
    by (rule r_upvote)
  then show ?thesis by (simp add: like_A_alice like_A_bob upvote_A_bob)
qed

lemma find_Voted: "findById [postVoted] idA = Inr (Some postVoted)"
  by (rule find_single) (simp add: postVoted_def postA_def)

lemma unlike_Voted_alice:
  "fst (toggleLike [postVoted] alice idA 1800) =
     [postVoted\<lparr>likes := [''64b7f0a1c2d3e4f5a6b7c8da''], updatedAt := 1800\<rparr>]"
  by (simp add: toggleLike_found [OF find_Voted])
     (simp add: save_def postVoted_def postA_def alice_def)

lemma upvote_Voted_alice:
  "fst (toggleUpvote [postVoted] alice idA 1800) =
     [postVoted\<lparr>upvotes := [''64b7f0a1c2d3e4f5a6b7c8da'', ''64b7f0a1c2d3e4f5a6b7c8d9''],
                updatedAt := 1800\<rparr>]"
  by (simp add: toggleUpvote_found [OF find_Voted])
     (simp add: save_def postVoted_def postA_def alice_def)

lemma unvote_Voted_bob:
  "fst (toggleUpvote [postVoted] bob idA 1800) =
     [postVoted\<lparr>upvotes := [], updatedAt := 1800\<rparr>]"
  by (simp add: toggleUpvote_found [OF find_Voted])
     (simp add: save_def postVoted_def postA_def bob_def)

theorem no_duplicate_votes_witness:
  "reachable [postVoted] \<and>
   likes postVoted = [userId alice, userId bob] \<and> upvotes postVoted = [userId bob] \<and>
   noDuplicateVotes [postVoted] \<and>
   fst (toggleLike [postVoted] alice idA 1800) =
     [postVoted\<lparr>likes := [userId bob], updatedAt := 1800\<rparr>] \<and>
   noDuplicateVotes (fst (toggleLike [postVoted] alice idA 1800)) \<and>
   fst (toggleUpvote [postVoted] alice idA 1800) =
     [postVoted\<lparr>upvotes := [userId bob, userId alice], updatedAt := 1800\<rparr>] \<and>
   noDuplicateVotes (fst (toggleUpvote [postVoted] alice idA 1800)) \<and>
   fst (toggleUpvote [postVoted] bob idA 1800) = [postVoted\<lparr>upvotes := [], updatedAt := 1800\<rparr>] \<and>
   noDuplicateVotes (fst (toggleUpvote [postVoted] bob idA 1800))"
proof -
  have ids: "userId alice = ''64b7f0a1c2d3e4f5a6b7c8d9''" "userId bob = ''64b7f0a1c2d3e4f5a6b7c8da''"
    by (simp_all add: alice_def bob_def)
  have v: "likes postVoted = [userId alice, userId bob] \<and> upvotes postVoted = [userId bob]"
    by (simp add: postVoted_def alice_def bob_def)
  have a: "noDuplicateVotes [postVoted] \<and>
      noDuplicateVotes (fst (toggleLike [postVoted] alice idA 1800)) \<and>
      noDuplicateVotes (fst (toggleUpvote [postVoted] alice idA 1800))"
    using reachable_Voted
      no_duplicate_votes [where st = "[postVoted]" and u = alice and idp = idA and now = 1800]
    by blast
  have b: "noDuplicateVotes (fst (toggleUpvote [postVoted] bob idA 1800))"
    using reachable_Voted
      no_duplicate_votes [where st = "[postVoted]" and u = bob and idp = idA and now = 1800]
    by blast
  have l: "fst (toggleLike [postVoted] alice idA 1800) =
     [postVoted\<lparr>likes := [userId bob], updatedAt := 1800\<rparr>]"
    by (simp add: unlike_Voted_alice ids)
  have m: "fst (toggleUpvote [postVoted] alice idA 1800) =
     [postVoted\<lparr>upvotes := [userId bob, userId alice], updatedAt := 1800\<rparr>]"
    by (simp add: upvote_Voted_alice ids)
  have n: "fst (toggleUpvote [postVoted] bob idA 1800) =
     [postVoted\<lparr>upvotes := [], updatedAt := 1800\<rparr>]"
    by (rule unvote_Voted_bob)
  show ?thesis using reachable_Voted v a l m n b by (intro conjI) simp_all
qed

lemma status_createPost:
  assumes "\<forall>p\<in>set st. status p \<in> set statusEnum"
    and "q \<in> set (fst (createPost rt st u b f newId tUpload now))"
  shows "status q \<in> set statusEnum"
  using createPost_posts [OF assms(2)] assms(1)
  by (auto simp: statusEnum_def dest: newPost_fields)

lemma status_updatePost:
  assumes "\<forall>p\<in>set st. status p \<in> set statusEnum"
    and "q \<in> set (fst (updatePost st u idp b now))"
  shows "status q \<in> set statusEnum"
  using updatePost_posts [OF assms(2)] assms(1) by auto

lemma status_addComment:
  assumes "\<forall>p\<in>set st. status p \<in> set statusEnum"
    and "q \<in> set (fst (addComment st u idp tx now))"
  shows "status q \<in> set statusEnum"
  using addComment_posts [OF assms(2)] assms(1) by auto

lemma status_toggleLike:
  assumes "\<forall>p\<in>set st. status p \<in> set statusEnum"
    and "q \<in> set (fst (toggleLike st u idp now))"
  shows "status q \<in> set statusEnum"
  using toggleLike_posts [OF assms(2)] assms(1) by auto

lemma status_toggleUpvote:
  assumes "\<forall>p\<in>set st. status p \<in> set statusEnum"
    and "q \<in> set (fst (toggleUpvote st u idp now))"
  shows "status q \<in> set statusEnum"
  using toggleUpvote_posts [OF assms(2)] assms(1) by auto

lemma reachable_status: "reachable st \<Longrightarrow> \<forall>p\<in>set st. status p \<in> set statusEnum"
proof (induction rule: reachable.induct)
  case r_init
  show ?case by simp
next
  case (r_create st rt u b f newId tUpload now)
  then show ?case using status_createPost by blast
next
  case (r_update st u idp ub now)
  then show ?case using status_updatePost by blast
next
  case (r_comment st u idp tx now)
  then show ?case using status_addComment by blast
next
  case (r_like st u idp now)
  then show ?case using status_toggleLike by blast
next
  case (r_upvote st u idp now)
  then show ?case using status_toggleUpvote by blast
qed

text \<open>
  C7, as amended. In every reachable collection the status of every post is one of
  \<open>reported\<close>, \<open>in progress\<close> (with a space, as the schema spells it) and
  \<open>resolved\<close>, and a post that Create has just made has status \<open>reported\<close>.
\<close>

theorem status_in_enum:
  "(reachable st \<longrightarrow>
      (\<forall>p\<in>set st. status p \<in> {''reported'', ''in progress'', ''resolved''})) \<and>
   (code (snd (createPost rt st u b f newId tUpload now)) = 201 \<longrightarrow>
      (\<exists>p. createPost rt st u b f newId tUpload now = (st @ [p], Response 201 (OnePost p)) \<and>
           status p = ''reported''))"
proof (intro conjI impI)
  assume "reachable st"
  then have "\<forall>p\<in>set st. status p \<in> set statusEnum" by (rule reachable_status)
  then show "\<forall>p\<in>set st. status p \<in> {''reported'', ''in progress'', ''resolved''}"
    by (simp add: statusEnum_def)
next
  assume "code (snd (createPost rt st u b f newId tUpload now)) = 201"
  then obtain sf p where np: "newPost rt u b sf newId now = Inr p"
    and r: "createPost rt st u b f newId tUpload now = (st @ [p], Response 201 (OnePost p))"
    using createPost_created by blast
  from np have "status p = ''reported''" using newPost_fields by blast
  with r show "\<exists>p. createPost rt st u b f newId tUpload now =
      (st @ [p], Response 201 (OnePost p)) \<and> status p = ''reported''" by blast
qed

lemma reachable_InProgress: "reachable [postInProgress]"
  using r_update [OF reachable_A, of alice idA setInProgress 3000]
  by (simp add: update_A_inProgress)

theorem status_in_enum_witness:
  "reachable [postInProgress] \<and>
   status postInProgress \<in> {''reported'', ''in progress'', ''resolved''} \<and>
   code (snd (createPost exampleRuntime [] alice bodyA None idA 900 1000)) = 201 \<and>
   (\<exists>p. createPost exampleRuntime [] alice bodyA None idA 900 1000 =
          ([] @ [p], Response 201 (OnePost p)) \<and> status p = ''reported'')"
proof -
  have c: "code (snd (createPost exampleRuntime [] alice bodyA None idA 900 1000)) = 201"
    by (simp add: create_A)
  have s: "status postInProgress \<in> {''reported'', ''in progress'', ''resolved''}"
    using reachable_InProgress
      status_in_enum [of "[postInProgress]" exampleRuntime alice bodyA None idA 900 1000]
    by simp
  have e: "\<exists>p. createPost exampleRuntime [] alice bodyA None idA 900 1000 =
          ([] @ [p], Response 201 (OnePost p)) \<and> status p = ''reported''"
    using c status_in_enum [of "[]" exampleRuntime alice bodyA None idA 900 1000] by blast
  show ?thesis using reachable_InProgress s c e by (intro conjI)
qed

theorem status_in_progress_reachable:
  "reachable [postInProgress] \<and> status postInProgress = ''in progress'' \<and>
   status postInProgress \<notin> {''reported'', ''in_progress'', ''resolved''} \<and>
   updatePost [postA] alice idA setIn_progress 3000 =
     ([postA], Response 500 (Message ''Server error''))"
proof -
  have s: "status postInProgress = ''in progress''" by (simp add: postInProgress_def)
  have u: "updatePost [postA] alice idA setIn_progress 3000 =
     ([postA], Response 500 (Message ''Server error''))"
    by (simp add: updatePost_def find_A)
       (simp add: postA_def alice_def setIn_progress_def truthy_def setStatus_def statusEnum_def
          serverError_def)
  show ?thesis using reachable_InProgress u by (simp add: s)
qed

section \<open>List\<close>

lemma nearCondition_Inr:
  assumes "nearCondition rt near = Inr (point, radius)"
  shows "\<exists>lat lng rest.
           map (toNumber rt) (splitComma near) = Some lat # Some lng # rest \<and>
           point = [lng, lat] \<and> 0 \<le> radius \<and>
           (case rest of [] \<Rightarrow> radius = 5000 | r # _ \<Rightarrow> r = Some radius)"
  using assms
  by (auto simp: nearCondition_def Let_def split: list.splits option.splits if_splits)

lemma newestFirst_sort: "newestFirst (sortNewestFirst ps)"
proof -
  have "sorted (map createdAt (sort_key createdAt ps))" by (rule sorted_sort_key)
  then have "sorted_wrt (\<lambda>a b. createdAt a \<le> createdAt b) (sort_key createdAt ps)"
    by (simp add: sorted_wrt_map)
  then show ?thesis
    by (simp add: newestFirst_def sortNewestFirst_def sorted_wrt_rev)
qed

lemma newestFirst_page: "newestFirst ps \<Longrightarrow> newestFirst (limitTo n (drop k ps))"
  by (simp add: newestFirst_def limitTo_def sorted_wrt_drop sorted_wrt_take)

lemma set_page: "set (limitTo n (drop k (sortNewestFirst ps))) \<subseteq> set ps"
proof -
  have "set (limitTo n (drop k (sortNewestFirst ps))) \<subseteq> set (drop k (sortNewestFirst ps))"
    by (auto simp: limitTo_def dest: in_set_takeD)
  also have "\<dots> \<subseteq> set (sortNewestFirst ps)" by (rule set_drop_subset)
  also have "\<dots> = set ps" by (simp add: sortNewestFirst_def)
  finally show ?thesis .
qed

lemma listPosts_near_200:
  assumes "truthyStr (q_near q)" and "listPosts rt st q = Response 200 (Posts ps)"
  shows "\<exists>point radius n k.
           nearCondition rt (the (q_near q)) = Inr (point, radius) \<and>
           ps = limitTo n (drop k (sortNewestFirst
                  (filter (matchesQuery rt q (Some (point, radius))) st)))"
proof (cases "nearCondition rt (the (q_near q))")
  case (Inl e)
  then show ?thesis using assms by (simp add: listPosts_def Let_def serverError_def)
next
  case (Inr c)
  obtain point radius where c: "c = (point, radius)" by (cases c)
  show ?thesis
    using assms Inr unfolding c
    by (auto simp: listPosts_def Let_def serverError_def split: if_splits)
qed

text \<open>
  C4, as amended. A List request with a \<open>near\<close> filter that is answered 200 returns
  only posts of the collection within \<open>radius\<close> metres of the query point
  \<open>[lng, lat]\<close>, where the radius is the third number of the filter and 5000 when there
  are only two; the posts are ordered newest first, not nearest first.
\<close>

theorem list_near_within_radius_newest_first:
  assumes "truthyStr (q_near q)" and "listPosts rt st q = Response 200 (Posts ps)"
  shows "\<exists>lat lng rest radius.
           map (toNumber rt) (splitComma (the (q_near q))) = Some lat # Some lng # rest \<and>
           (case rest of [] \<Rightarrow> radius = 5000 | r # _ \<Rightarrow> r = Some radius) \<and>
           (\<forall>p\<in>set ps. p \<in> set st \<and> geoDistance rt [lng, lat] (coordinates p) \<le> radius) \<and>
           newestFirst ps"
proof -
  obtain point radius n k where nc: "nearCondition rt (the (q_near q)) = Inr (point, radius)"
    and ps: "ps = limitTo n (drop k (sortNewestFirst
                  (filter (matchesQuery rt q (Some (point, radius))) st)))"
    using listPosts_near_200 [OF assms] by blast
  obtain lat lng rest where m: "map (toNumber rt) (splitComma (the (q_near q))) =
      Some lat # Some lng # rest"
    and pt: "point = [lng, lat]"
    and r: "(case rest of [] \<Rightarrow> radius = 5000 | r # _ \<Rightarrow> r = Some radius)"
    using nearCondition_Inr [OF nc] by (elim exE conjE)
  have sub: "set ps \<subseteq> set (filter (matchesQuery rt q (Some (point, radius))) st)"
    unfolding ps by (rule set_page)
  have within: "\<forall>p\<in>set ps. p \<in> set st \<and> geoDistance rt [lng, lat] (coordinates p) \<le> radius"
    using sub by (auto simp: matchesQuery_def pt)
  have nf: "newestFirst ps"
    unfolding ps by (rule newestFirst_page) (rule newestFirst_sort)
  show ?thesis
    by (rule exI [of _ lat], rule exI [of _ lng], rule exI [of _ rest], rule exI [of _ radius])
       (intro conjI m r within nf)
qed

lemma create_B:
  "createPost exampleRuntime [postA] alice bodyB None idB 1900 2000 =
     ([postA, postB], Response 201 (OnePost postB))"
  by (simp add: createPost_def uploadSingle_def newPost_B)
     (simp add: insert_post_def geoPointOk_def postA_def postB_def idA_def idB_def)

lemma reachable_AB: "reachable [postA, postB]"
  using r_create [OF reachable_A, of exampleRuntime alice bodyB None idB 1900 2000]
  by (simp add: create_B)

lemma list_near_AB:
  "listPosts exampleRuntime [postA, postB] nearQuery = Response 200 (Posts [postB, postA])"
  by (simp add: listPosts_def nearQuery_def truthyStr_def nearCondition_def exampleRuntime_def
      exampleNumber_def geoPointOk_def matchesQuery_def exampleDistance_def sortNewestFirst_def
      limitTo_def postA_def postB_def)

theorem list_near_within_radius_newest_first_witness:
  "truthyStr (q_near nearQuery) \<and>
   listPosts exampleRuntime [postA, postB] nearQuery = Response 200 (Posts [postB, postA]) \<and>
   (\<exists>lat lng rest radius.
      map (toNumber exampleRuntime) (splitComma (the (q_near nearQuery))) =
        Some lat # Some lng # rest \<and>
      (case rest of [] \<Rightarrow> radius = 5000 | r # _ \<Rightarrow> r = Some radius) \<and>
      (\<forall>p\<in>set [postB, postA].
         p \<in> set [postA, postB] \<and>
         geoDistance exampleRuntime [lng, lat] (coordinates p) \<le> radius) \<and>
      newestFirst [postB, postA])"
proof -
  have t: "truthyStr (q_near nearQuery)" by (simp add: nearQuery_def truthyStr_def)
  show ?thesis
    using t list_near_AB list_near_within_radius_newest_first [OF t list_near_AB]
    by (intro conjI)
qed

theorem list_near_not_nearest_first:
  "reachable [postA, postB] \<and>
   nearCondition exampleRuntime ''40.0,-75.0,1000'' = Inr ([- 75, 40], 1000) \<and>
   listPosts exampleRuntime [postA, postB] nearQuery = Response 200 (Posts [postB, postA]) \<and>
   geoDistance exampleRuntime [- 75, 40] (coordinates postA) <
     geoDistance exampleRuntime [- 75, 40] (coordinates postB) \<and>
   \<not> nearestFirst exampleRuntime [- 75, 40] [postB, postA]"
proof -
  have n: "nearCondition exampleRuntime ''40.0,-75.0,1000'' = Inr ([- 75, 40], 1000)"
    by (simp add: nearCondition_def exampleRuntime_def exampleNumber_def geoPointOk_def)
  have d: "geoDistance exampleRuntime [- 75, 40] (coordinates postA) <
     geoDistance exampleRuntime [- 75, 40] (coordinates postB)"
    by (simp add: exampleRuntime_def exampleDistance_def postA_def postB_def)
  have f: "\<not> nearestFirst exampleRuntime [- 75, 40] [postB, postA]"
    by (simp add: nearestFirst_def exampleRuntime_def exampleDistance_def postA_def postB_def)
  show ?thesis using reachable_AB n list_near_AB d f by (intro conjI)
qed

end
